theory Spec2Isabelle
  imports Main "HOL-Library.Monad_Syntax"
begin

section \<open>The line handler of the metrics relay (handle_line.go)\<close>

text \<open>
  A shallow embedding of \<^verbatim>\<open>handle_line.go\<close>: the gzip sniffing, the dual-format line
  decoder and the two ingestion loops. A Go \<^verbatim>\<open>[]byte\<close> and a Go \<^verbatim>\<open>string\<close> are both a
  \<^typ>\<open>string\<close> (a list of 8-bit characters). A Go function returning \<^verbatim>\<open>(T, error)\<close>
  returns a pair whose second component is an \<open>error option\<close> (\<open>None\<close> is
  \<^verbatim>\<open>nil\<close>). A run-time panic (index or slice bounds out of range) is the value \<open>None\<close>
  of an outer option, so a function that can panic returns \<open>'a option\<close>.
\<close>

subsection \<open>Errors\<close>

text \<open>
  \<^verbatim>\<open>errors.New\<close> and \<^verbatim>\<open>fmt.Errorf\<close> build an error from a message;
  \<^verbatim>\<open>errors.Wrap(err, msg)\<close> puts a message around an error.
\<close>

datatype error = ErrorString string | Wrap error string

subsection \<open>Indexing and slicing with Go's bounds checks\<close>

definition len :: "string \<Rightarrow> int" where
  "len s = int (length s)"

text \<open>\<^verbatim>\<open>s[i]\<close>: panics unless \<open>0 \<le> i < len s\<close>.\<close>

definition at :: "string \<Rightarrow> int \<Rightarrow> char option" where
  "at s i = (if 0 \<le> i \<and> i < len s then Some (s ! nat i) else None)"

text \<open>\<^verbatim>\<open>s[lo:hi]\<close>: panics unless \<open>0 \<le> lo \<le> hi \<le> len s\<close>.\<close>

definition slice :: "string \<Rightarrow> int \<Rightarrow> int \<Rightarrow> string option" where
  "slice s lo hi =
     (if 0 \<le> lo \<and> lo \<le> hi \<and> hi \<le> len s
      then Some (take (nat (hi - lo)) (drop (nat lo) s))
      else None)"

subsection \<open>The functions of package bytes that the decoder calls\<close>

text \<open>
  \<^verbatim>\<open>bytes.IndexByte\<close>: the index of the first occurrence of the byte, or \<open>-1\<close>.
\<close>

fun IndexByte :: "string \<Rightarrow> char \<Rightarrow> int" where
  "IndexByte [] c = - 1"
| "IndexByte (x # xs) c =
     (if x = c then 0
      else (let i = IndexByte xs c in if i < 0 then - 1 else i + 1))"

text \<open>
  \<^verbatim>\<open>bytes.LastIndexByte\<close>: the index of the last occurrence of the byte, or \<open>-1\<close>.
\<close>

definition LastIndexByte :: "string \<Rightarrow> char \<Rightarrow> int" where
  "LastIndexByte s c =
     (let i = IndexByte (rev s) c in if i < 0 then - 1 else len s - 1 - i)"

text \<open>
  \<^verbatim>\<open>bytes.Split(s, sep)\<close> for a separator of one byte: the pieces between the
  separators; the empty input gives one empty piece.
\<close>

fun Split :: "string \<Rightarrow> char \<Rightarrow> string list" where
  "Split [] c = [[]]"
| "Split (x # xs) c =
     (if x = c then [] # Split xs c
      else (case Split xs c of
              [] \<Rightarrow> [[x]]
            | piece # pieces \<Rightarrow> (x # piece) # pieces))"

text \<open>
  \<^verbatim>\<open>bytes.TrimSpace\<close> slices off all leading and trailing white space as Unicode
  defines it. The white-space code points are U+0009 to U+000D, U+0020, U+0085, U+00A0,
  U+1680, U+2000 to U+200A, U+2028, U+2029, U+202F, U+205F and U+3000; \<open>spaceRunes\<close>
  lists their UTF-8 encodings. A byte sequence starts (ends) with a white-space rune
  exactly when one of these encodings is a prefix (suffix) of it: the decoder accepts
  shortest-form encodings only, and an invalid byte decodes to U+FFFD, which is no space.
\<close>

definition spaceRunes :: "string list" where
  "spaceRunes =
    [[CHR 0x09], [CHR 0x0A], [CHR 0x0B], [CHR 0x0C], [CHR 0x0D], [CHR 0x20],
     [CHR 0xC2, CHR 0x85], [CHR 0xC2, CHR 0xA0],
     [CHR 0xE1, CHR 0x9A, CHR 0x80],
     [CHR 0xE2, CHR 0x80, CHR 0x80], [CHR 0xE2, CHR 0x80, CHR 0x81],
     [CHR 0xE2, CHR 0x80, CHR 0x82], [CHR 0xE2, CHR 0x80, CHR 0x83],
     [CHR 0xE2, CHR 0x80, CHR 0x84], [CHR 0xE2, CHR 0x80, CHR 0x85],
     [CHR 0xE2, CHR 0x80, CHR 0x86], [CHR 0xE2, CHR 0x80, CHR 0x87],
     [CHR 0xE2, CHR 0x80, CHR 0x88], [CHR 0xE2, CHR 0x80, CHR 0x89],
     [CHR 0xE2, CHR 0x80, CHR 0x8A],
     [CHR 0xE2, CHR 0x80, CHR 0xA8], [CHR 0xE2, CHR 0x80, CHR 0xA9],
     [CHR 0xE2, CHR 0x80, CHR 0xAF],
     [CHR 0xE2, CHR 0x81, CHR 0x9F],
     [CHR 0xE3, CHR 0x80, CHR 0x80]]"

text \<open>The first encoding of the table that the bytes start with, if any.\<close>

definition leadingRune :: "string list \<Rightarrow> string \<Rightarrow> string option" where
  "leadingRune encs s = find (\<lambda>e. e \<noteq> [] \<and> take (length e) s = e) encs"

function stripRunes :: "string list \<Rightarrow> string \<Rightarrow> string" where
  "stripRunes encs s =
     (case leadingRune encs s of
        None \<Rightarrow> s
      | Some e \<Rightarrow> stripRunes encs (drop (length e) s))"
  by pat_completeness auto
termination
proof (relation "measure (\<lambda>(encs, s). length s)")
  show "wf (measure (\<lambda>(encs, s). length s))"
    by simp
next
  fix encs :: "string list" and s e :: string
  assume "leadingRune encs s = Some e"
  then have e: "e \<noteq> []" and "take (length e) s = e"
    by (auto simp: leadingRune_def find_Some_iff)
  then have "s \<noteq> []"
    by auto
  with e show "((encs, drop (length e) s), (encs, s)) \<in> measure (\<lambda>(encs, s). length s)"
    by simp
qed

declare stripRunes.simps [simp del]

definition TrimSpace :: "string \<Rightarrow> string" where
  "TrimSpace s =
     rev (stripRunes (map rev spaceRunes) (rev (stripRunes spaceRunes s)))"

subsection \<open>The observation and the library functions\<close>

datatype kind = Counter | Gauge | Histogram

text \<open>
  Modelled from the spec: the declaration of the struct \<^verbatim>\<open>observation\<close> is not in
  \<^verbatim>\<open>handle_line.go\<close>. The decoder assigns its fields \<^verbatim>\<open>Name\<close>, \<^verbatim>\<open>Labels\<close> (a
  \<^verbatim>\<open>map[string]string\<close>) and \<^verbatim>\<open>Value\<close> (a \<^verbatim>\<open>*float64\<close>, \<open>None\<close> is \<^verbatim>\<open>nil\<close>); the
  declaration fields (kind, help text, bucket boundaries) are optional, as section 3 of
  the spec has them. The type \<open>'f\<close> stands for \<^verbatim>\<open>float64\<close>.
\<close>

record 'f observation =
  Name :: string
  Kind :: "kind option"
  Help :: "string option"
  Buckets :: "'f list option"
  Labels :: "string \<rightharpoonup> string"
  Value :: "'f option"

text \<open>The zero value of the struct: what a fresh \<^verbatim>\<open>var o observation\<close> holds.\<close>

definition zero_observation :: "'f observation" where
  "zero_observation =
     \<lparr>Name = [], Kind = None, Help = None, Buckets = None,
      Labels = Map.empty, Value = None\<rparr>"

text \<open>
  The functions of other packages that the file calls are parameters of the model:
  \<^verbatim>\<open>json.Unmarshal(p, &o)\<close> (from the bytes and the observation to fill, to the
  observation and the error), \<^verbatim>\<open>strconv.ParseFloat(s, 64)\<close>, \<^verbatim>\<open>gzip.NewReader\<close> (the
  type \<open>'r\<close> is the reader it returns) and \<^verbatim>\<open>io.ReadAll\<close> on that reader.
\<close>

record ('f, 'r) lib =
  json_Unmarshal :: "string \<Rightarrow> 'f observation \<Rightarrow> 'f observation \<times> error option"
  strconv_ParseFloat :: "string \<Rightarrow> error + 'f"
  gzip_NewReader :: "string \<Rightarrow> error + 'r"
  io_ReadAll :: "'r \<Rightarrow> string \<times> error option"

subsection \<open>Transparent decompression\<close>

definition isGzipped :: "string \<Rightarrow> bool" where
  "isGzipped packet =
     (length packet \<ge> 2 \<and> of_char (packet ! 0) = (31 :: nat)
        \<and> of_char (packet ! 1) = (139 :: nat))"

definition unZipData :: "('f, 'r) lib \<Rightarrow> string \<Rightarrow> string \<times> error option" where
  "unZipData L data =
     (case gzip_NewReader L data of
        Inl e1 \<Rightarrow> ([], Some e1)
      | Inr gzreader \<Rightarrow>
          (case io_ReadAll L gzreader of
             (output, Some e2) \<Rightarrow> ([], Some e2)
           | (output, None) \<Rightarrow> (output, None)))"

definition transparentDecompressGZip ::
  "('f, 'r) lib \<Rightarrow> string \<Rightarrow> string \<times> error option" where
  "transparentDecompressGZip L data =
     (if isGzipped data then unZipData L data else (data, None))"

subsection \<open>The line decoder\<close>

text \<open>
  The loop of \<^verbatim>\<open>prometheusUnmarshal\<close> over the comma-separated pairs. The result is
  \<open>None\<close> when an index or a slice is out of range, \<open>Some (Inl err)\<close> when the loop
  returns an error, and \<open>Some (Inr labelmap)\<close> when it runs to its end.
\<close>

fun labelLoop ::
  "string list \<Rightarrow> (string \<rightharpoonup> string) \<Rightarrow> (error + (string \<rightharpoonup> string)) option" where
  "labelLoop [] labelmap = Some (Inr labelmap)"
| "labelLoop (pair # pairs) labelmap =
     (let z = IndexByte pair (CHR ''='') in
      if z < 0 then labelLoop pairs labelmap
      else do {
        k \<leftarrow> slice pair 0 z;
        v \<leftarrow> slice pair (z + 1) (len pair);
        c0 \<leftarrow> at v 0;
        if c0 \<noteq> CHR 0x22
        then Some (Inl (ErrorString ''bad format: label value must be wrapped in quotes''))
        else do {
          c1 \<leftarrow> at v (len v - 1);
          if c1 \<noteq> CHR 0x22
          then Some (Inl (ErrorString ''bad format: label value must be wrapped in quotes''))
          else do {
            v' \<leftarrow> slice v 1 (len v - 1);
            labelLoop pairs (labelmap(k \<mapsto> v'))
          }
        }
      })"

definition prometheusUnmarshal ::
  "('f, 'r) lib \<Rightarrow> string \<Rightarrow> 'f observation \<Rightarrow> ('f observation \<times> error option) option" where
  "prometheusUnmarshal L p0 ob =
     (let p = TrimSpace p0;
          x = LastIndexByte p (CHR '' '')
      in
      if x < 1 then Some (ob, Some (ErrorString ''bad format: couldn't find space''))
      else do {
        a \<leftarrow> slice p 0 x;
        b \<leftarrow> slice p (x + 1) (len p);
        let ident = TrimSpace a; val = TrimSpace b in
        (case strconv_ParseFloat L val of
           Inl err \<Rightarrow> Some (ob, Some (Wrap err (''bad value ('' @ val @ '')'')))
         | Inr v \<Rightarrow>
             (let y = IndexByte ident (CHR ''{'') in
              if y < 0
              then Some (ob, Some (ErrorString ''bad format: couldn't find opening brace''))
              else do {
                c \<leftarrow> at ident (len ident - 1);
                if c \<noteq> CHR ''}''
                then Some (ob,
                       Some (ErrorString ''bad format: couldn't find terminating brace''))
                else do {
                  name \<leftarrow> slice ident 0 y;
                  labels \<leftarrow> slice ident (y + 1) (len ident - 1);
                  if CHR '' '' \<in> set labels
                  then Some (ob,
                         Some (ErrorString
                           ''bad format: labels section may not contain spaces''))
                  else do {
                    r \<leftarrow> labelLoop (Split labels (CHR '','')) Map.empty;
                    (case r of
                       Inl err \<Rightarrow> Some (ob, Some err)
                     | Inr labelmap \<Rightarrow>
                         Some (ob\<lparr>Name := name, Labels := labelmap, Value := Some v\<rparr>,
                               None))
                  }
                }
              }))
      })"

text \<open>
  \<^verbatim>\<open>parseLine\<close> starts from the zero observation (its named result \<^verbatim>\<open>o\<close>) and returns
  it with the error.
\<close>

definition parseLine ::
  "('f, 'r) lib \<Rightarrow> string \<Rightarrow> ('f observation \<times> error option) option" where
  "parseLine L p =
     (if len p \<le> 0 then Some (zero_observation, Some (ErrorString ''invalid (empty) line''))
      else do {
        c \<leftarrow> at p 0;
        if c = CHR ''{'' then Some (json_Unmarshal L p zero_observation)
        else prometheusUnmarshal L p zero_observation
      })"

subsection \<open>Handling one line\<close>

text \<open>
  The observer is an interface with one method; the model takes the method as a function
  from the observer's state and the observation to the new state and the error.
  \<^verbatim>\<open>handleLine\<close> returns the name, the error and the observer's state.
\<close>

definition handleLine ::
  "('f, 'r) lib \<Rightarrow> ('st \<Rightarrow> 'f observation \<Rightarrow> 'st \<times> error option) \<Rightarrow> string \<Rightarrow> 'st
     \<Rightarrow> ((string \<times> error option) \<times> 'st) option" where
  "handleLine L observe line st =
     (case parseLine L line of
        None \<Rightarrow> None
      | Some (obs, Some err) \<Rightarrow> Some (([], Some (Wrap err ''parse error'')), st)
      | Some (obs, None) \<Rightarrow>
          (case observe st obs of
             (st', Some err) \<Rightarrow> Some ((Name obs, Some (Wrap err ''observation error'')), st')
           | (st', None) \<Rightarrow> Some ((Name obs, None), st')))"

subsection \<open>The ingestion loops\<close>

text \<open>
  The logger is the list of its entries: \<^verbatim>\<open>line=rejected err=...\<close> at level error,
  \<^verbatim>\<open>line=accepted name=...\<close> at level debug.
\<close>

datatype logEntry = Rejected error | Accepted string

text \<open>
  One call of \<^verbatim>\<open>conn.ReadFrom(buf)\<close> is the pair of the bytes it left in
  \<^verbatim>\<open>buf[:n]\<close> and its error. The packet connection is the list of the results of its
  successive reads.
\<close>

definition readFromPacketConn ::
  "('f, 'r) lib \<Rightarrow> string \<times> error option \<Rightarrow> string \<times> error option" where
  "readFromPacketConn L rd =
     (case rd of
        (data, Some err) \<Rightarrow> ([], Some err)
      | (data, None) \<Rightarrow> transparentDecompressGZip L data)"

text \<open>
  How the packet loop ends: it returns an error, a panic unwinds it, or (the list of reads
  is used up) it waits in \<^verbatim>\<open>ReadFrom\<close> and never returns.
\<close>

datatype loopEnd = Returns error | Panics | Blocks

fun forwardPacketConn ::
  "('f, 'r) lib \<Rightarrow> ('st \<Rightarrow> 'f observation \<Rightarrow> 'st \<times> error option)
     \<Rightarrow> (string \<times> error option) list \<Rightarrow> 'st \<Rightarrow> logEntry list
     \<Rightarrow> loopEnd \<times> 'st \<times> logEntry list" where
  "forwardPacketConn L observe [] st logger = (Blocks, st, logger)"
| "forwardPacketConn L observe (rd # rds) st logger =
     (case readFromPacketConn L rd of
        (packet, Some err) \<Rightarrow> (Returns err, st, logger)
      | (packet, None) \<Rightarrow>
          (case handleLine L observe packet st of
             None \<Rightarrow> (Panics, st, logger)
           | Some ((name, Some err), st') \<Rightarrow>
               forwardPacketConn L observe rds st' (logger @ [Rejected err])
           | Some ((name, None), st') \<Rightarrow>
               forwardPacketConn L observe rds st' (logger @ [Accepted name])))"

text \<open>
  \<^verbatim>\<open>handleConn\<close> runs over the tokens that the \<^verbatim>\<open>bufio.Scanner\<close> yields for the
  connection (its lines, in order), and returns the observer's state and the log; \<open>None\<close>
  is a panic.
\<close>

fun handleConn ::
  "('f, 'r) lib \<Rightarrow> ('st \<Rightarrow> 'f observation \<Rightarrow> 'st \<times> error option) \<Rightarrow> bool
     \<Rightarrow> string list \<Rightarrow> 'st \<Rightarrow> logEntry list \<Rightarrow> ('st \<times> logEntry list) option" where
  "handleConn L observe strict [] st logger = Some (st, logger)"
| "handleConn L observe strict (line # lines) st logger =
     (case transparentDecompressGZip L line of
        (data, Some err) \<Rightarrow> handleConn L observe strict lines st (logger @ [Rejected err])
      | (data, None) \<Rightarrow>
          (case handleLine L observe data st of
             None \<Rightarrow> None
           | Some ((name, Some err), st') \<Rightarrow>
               if strict then Some (st', logger @ [Rejected err])
               else handleConn L observe strict lines st' (logger @ [Rejected err])
           | Some ((name, None), st') \<Rightarrow>
               handleConn L observe strict lines st' (logger @ [Accepted name])))"

subsection \<open>The dispatch as the specification words it\<close>

text \<open>
  Section 4.2 of the spec dispatches on the first byte that is not white space: an opening
  brace selects the JSON decoder, anything else the text grammar; the empty input is an
  invalid line. \<open>spec_parseLine\<close> follows these words, to be compared with \<open>parseLine\<close>.
\<close>

definition spec_parseLine ::
  "('f, 'r) lib \<Rightarrow> string \<Rightarrow> ('f observation \<times> error option) option" where
  "spec_parseLine L p =
     (if p = [] then Some (zero_observation, Some (ErrorString ''invalid (empty) line''))
      else (case stripRunes spaceRunes p of
              [] \<Rightarrow> prometheusUnmarshal L p zero_observation
            | c # rest \<Rightarrow>
                if c = CHR ''{'' then Some (json_Unmarshal L p zero_observation)
                else prometheusUnmarshal L p zero_observation))"

subsection \<open>Instances of the parameters, for concrete runs\<close>

text \<open>
  The theorems below hold for every library and every observer. Where a statement is
  evaluated on a concrete input, the parameters are these small instances. Each agrees
  with the Go function it stands for on the inputs used: \<open>sample_ParseFloat\<close> reads
  unsigned decimal integers, \<open>sample_json\<close> reads objects of the single form
  \<^verbatim>\<open>{"name":"..."}\<close> (white space around them allowed, as in JSON), and
  \<open>sample_NewReader\<close> checks the ten-byte gzip header as \<^verbatim>\<open>gzip.NewReader\<close> does
  (magic and compression method) and then, in place of inflating, takes the rest of the
  bytes as the payload.
\<close>

definition isDigit :: "char \<Rightarrow> bool" where
  "isDigit c = (48 \<le> (of_char c :: nat) \<and> (of_char c :: nat) \<le> 57)"

definition sample_ParseFloat :: "string \<Rightarrow> error + int" where
  "sample_ParseFloat s =
     (if s \<noteq> [] \<and> list_all isDigit s
      then Inr (foldl (\<lambda>n c. 10 * n + (of_char c - 48)) 0 s)
      else Inl (ErrorString (''strconv.ParseFloat: parsing '' @ s @ '': invalid syntax'')))"

definition sample_json :: "string \<Rightarrow> 'f observation \<Rightarrow> 'f observation \<times> error option" where
  \<open>sample_json p ob =
     (let t = TrimSpace p;
          n = take (length t - 11) (drop 9 t)
      in
      if 11 \<le> length t \<and> take 9 t = ''{"name":"'' \<and> drop (length t - 2) t = ''"}''
           \<and> CHR 0x22 \<notin> set n \<and> CHR 0x5C \<notin> set n
      then (ob\<lparr>Name := n\<rparr>, None)
      else (ob, Some (ErrorString ''json: cannot unmarshal'')))\<close>

definition sample_NewReader :: "string \<Rightarrow> error + string" where
  "sample_NewReader data =
     (if length data < 10 then Inl (ErrorString ''unexpected EOF'')
      else if take 3 data \<noteq> [CHR 0x1F, CHR 0x8B, CHR 0x08]
      then Inl (ErrorString ''gzip: invalid header'')
      else Inr (drop 10 data))"

definition sample_ReadAll :: "string \<Rightarrow> string \<times> error option" where
  "sample_ReadAll r = (r, None)"

definition sample_lib :: "(int, string) lib" where
  "sample_lib =
     \<lparr>json_Unmarshal = sample_json, strconv_ParseFloat = sample_ParseFloat,
      gzip_NewReader = sample_NewReader, io_ReadAll = sample_ReadAll\<rparr>"

text \<open>An observer that keeps the names it was given, in order, and accepts everything.\<close>

definition sample_observe :: "string list \<Rightarrow> 'f observation \<Rightarrow> string list \<times> error option" where
  "sample_observe st obs = (st @ [Name obs], None)"

text \<open>
  Any observer, instrumented: the state also holds the list of the observations that
  \<open>observe\<close> was called with.
\<close>

definition recording ::
  "('st \<Rightarrow> 'f observation \<Rightarrow> 'st \<times> error option)
     \<Rightarrow> 'f observation list \<times> 'st \<Rightarrow> 'f observation
     \<Rightarrow> ('f observation list \<times> 'st) \<times> error option" where
  "recording observe cst obs =
     (case observe (snd cst) obs of (st', r) \<Rightarrow> ((fst cst @ [obs], st'), r))"

subsection \<open>The shape of a label item\<close>

text \<open>
  The printable ASCII characters other than the space, 0x21 to 0x7E. A metric name and a
  value made of them hold no white space.
\<close>

definition isGraphic :: "char \<Rightarrow> bool" where
  "isGraphic c = (33 \<le> (of_char c :: nat) \<and> (of_char c :: nat) \<le> 126)"

text \<open>
  One comma-separated item of the brace section: its value part is what follows its first
  equals sign. An item with no equals sign is \<open>skipped\<close>; it is \<open>quoted\<close> when its value
  part has at least two bytes and starts and ends with a double quote (0x22), and
  \<open>unquoted\<close> when its value part is not empty and lacks the opening or the closing
  double quote. The two remaining value parts, the empty one and the lone double quote,
  are neither.
\<close>

definition valuePart :: "string \<Rightarrow> string option" where
  "valuePart pair =
     (let z = IndexByte pair (CHR ''='') in
      if z < 0 then None else Some (drop (nat z + 1) pair))"

definition skipped :: "string \<Rightarrow> bool" where
  "skipped pair = (valuePart pair = None)"

definition quoted :: "string \<Rightarrow> bool" where
  "quoted pair =
     (case valuePart pair of
        None \<Rightarrow> False
      | Some v \<Rightarrow> 2 \<le> length v \<and> hd v = CHR 0x22 \<and> last v = CHR 0x22)"

definition unquoted :: "string \<Rightarrow> bool" where
  "unquoted pair =
     (case valuePart pair of
        None \<Rightarrow> False
      | Some v \<Rightarrow> v \<noteq> [] \<and> (hd v \<noteq> CHR 0x22 \<or> last v \<noteq> CHR 0x22))"


text \<open>
  The brace section of a line, as \<open>prometheusUnmarshal\<close> cuts it out: what lies between
  the first opening brace of the identifier and the last byte of the identifier.
\<close>

definition labelSection :: "string \<Rightarrow> string" where
  "labelSection p0 =
     (let p = TrimSpace p0;
          ident = TrimSpace (take (nat (LastIndexByte p (CHR '' ''))) p);
          y = IndexByte ident (CHR ''{'')
      in take (length ident - nat y - 2) (drop (nat y + 1) ident))"

subsection \<open>Two gzip-looking inputs\<close>

text \<open>
  \<open>corruptGzip\<close> is the input of the repository's test of a corrupt stream: the gzip
  magic followed by zero bytes, which \<^verbatim>\<open>gzip.NewReader\<close> rejects with
  \<^verbatim>\<open>gzip.ErrHeader\<close> (the compression method is not 8). \<open>sample_frame\<close> puts the
  ten-byte header that \<open>sample_NewReader\<close> accepts in front of a payload.
\<close>

definition corruptGzip :: string where
  "corruptGzip =
     [CHR 0x1F, CHR 0x8B, CHR 0x00, CHR 0x00, CHR 0x00, CHR 0x00, CHR 0x00,
      CHR 0x00, CHR 0x00, CHR 0x00, CHR 0x00, CHR 0x00, CHR 0x00, CHR 0x00]"

definition sample_frame :: "string \<Rightarrow> string" where
  "sample_frame payload =
     [CHR 0x1F, CHR 0x8B, CHR 0x08, CHR 0x00, CHR 0x00, CHR 0x00, CHR 0x00,
      CHR 0x00, CHR 0x00, CHR 0xFF] @ payload"

section \<open>Properties\<close>

subsection \<open>Searching and trimming\<close>

lemma IndexByte_ge: "- 1 \<le> IndexByte s c"
  by (induction s) (auto simp: Let_def)

lemma IndexByte_neg_iff: "IndexByte s c < 0 \<longleftrightarrow> c \<notin> set s"
proof (induction s)
  case Nil
  show ?case by simp
next
  case (Cons x xs)
  have "- 1 \<le> IndexByte xs c" by (rule IndexByte_ge)
  with Cons show ?case by (auto simp: Let_def)
qed

lemma IndexByte_first: "c \<notin> set u \<Longrightarrow> IndexByte (u @ c # w) c = int (length u)"
  by (induction u) (auto simp: Let_def)

lemma LastIndexByte_last: "c \<notin> set w \<Longrightarrow> LastIndexByte (u @ c # w) c = int (length u)"
  using IndexByte_first [of c "rev w" "rev u"]
  by (simp add: LastIndexByte_def len_def)

lemma LastIndexByte_neg_iff: "LastIndexByte s c < 0 \<longleftrightarrow> c \<notin> set s"
proof -
  have "IndexByte (rev s) c < int (length s)" if "c \<in> set s"
  proof -
    from that obtain u w where s: "rev s = u @ c # w" and "c \<notin> set u"
      by (metis set_rev split_list_first)
    then have "IndexByte (rev s) c = int (length u)"
      by (simp add: IndexByte_first)
    moreover have "length u < length s"
    proof -
      from s have "length (rev s) = length (u @ c # w)"
        by simp
      then show ?thesis
        by simp
    qed
    ultimately show ?thesis by simp
  qed
  then show ?thesis
    using IndexByte_neg_iff [of "rev s" c]
    by (auto simp: LastIndexByte_def len_def Let_def)
qed

lemma leadingRune_None:
  assumes "\<forall>e \<in> set encs. e \<noteq> [] \<longrightarrow> \<not> isGraphic (hd e)"
    and "s \<noteq> []" and "isGraphic (hd s)"
  shows "leadingRune encs s = None"
proof -
  have "\<not> (e \<noteq> [] \<and> take (length e) s = e)" if "e \<in> set encs" for e
  proof
    assume h: "e \<noteq> [] \<and> take (length e) s = e"
    then have "hd e = hd (take (length e) s)" by simp
    also have "\<dots> = hd s" using h assms(2) by (cases e; cases s) auto
    finally show False using h that assms by auto
  qed
  then show ?thesis
    by (auto simp: leadingRune_def find_None_iff)
qed

lemma spaceRunes_not_graphic:
  "\<forall>e \<in> set spaceRunes. e \<noteq> [] \<longrightarrow> \<not> isGraphic (hd e)"
  by (simp add: spaceRunes_def isGraphic_def)

lemma spaceRunes_rev_not_graphic:
  "\<forall>e \<in> set (map rev spaceRunes). e \<noteq> [] \<longrightarrow> \<not> isGraphic (hd e)"
  by (simp add: spaceRunes_def isGraphic_def)

lemma TrimSpace_graphic_ends:
  assumes "s \<noteq> []" and "isGraphic (hd s)" and "isGraphic (last s)"
  shows "TrimSpace s = s"
proof -
  have "leadingRune spaceRunes s = None"
    using spaceRunes_not_graphic assms(1,2) by (rule leadingRune_None)
  then have l: "stripRunes spaceRunes s = s"
    by (simp add: stripRunes.simps)
  have "leadingRune (map rev spaceRunes) (rev s) = None"
    using spaceRunes_rev_not_graphic assms(1,3)
    by (intro leadingRune_None) (auto simp: hd_rev)
  then have "stripRunes (map rev spaceRunes) (rev s) = rev s"
    by (simp add: stripRunes.simps)
  with l show ?thesis
    by (simp add: TrimSpace_def)
qed

lemma isGraphic_not_space: "isGraphic c \<Longrightarrow> c \<noteq> CHR '' ''"
  by (auto simp: isGraphic_def)

lemma graphic_brace: "isGraphic (CHR ''{'')" "isGraphic (CHR ''}'')"
  by (simp_all add: isGraphic_def)

lemma slice_prefix: "slice (u @ w) 0 (int (length u)) = Some u"
  by (simp add: slice_def len_def)

lemma slice_suffix: "slice (u @ c # w) (int (length u) + 1) (len (u @ c # w)) = Some w"
  by (simp add: slice_def len_def nat_add_distrib)

lemma slice_middle:
  "slice (u @ c # w @ [d]) (int (length u) + 1) (len (u @ c # w @ [d]) - 1) = Some w"
  by (simp add: slice_def len_def nat_add_distrib)

lemma at_last: "at (u @ [d]) (len (u @ [d]) - 1) = Some d"
  by (simp add: at_def len_def)

subsection \<open>The text grammar on a line of the form name{labels} value\<close>

text \<open>
  On a line made of a printable name without an opening brace, a brace section and a
  printable value, \<open>prometheusUnmarshal\<close> reduces to the float parser on the value, the
  test for spaces in the brace section and the loop over its items.
\<close>

lemma prometheusUnmarshal_shape:
  assumes name: "list_all isGraphic name" "CHR ''{'' \<notin> set name"
    and val: "val \<noteq> []" "list_all isGraphic val"
  shows "prometheusUnmarshal L (name @ CHR ''{'' # labels @ ''} '' @ val) ob =
    (case strconv_ParseFloat L val of
       Inl err \<Rightarrow> Some (ob, Some (Wrap err (''bad value ('' @ val @ '')'')))
     | Inr v \<Rightarrow>
         if CHR '' '' \<in> set labels
         then Some (ob, Some (ErrorString ''bad format: labels section may not contain spaces''))
         else (case labelLoop (Split labels (CHR '','')) Map.empty of
                 None \<Rightarrow> None
               | Some (Inl err) \<Rightarrow> Some (ob, Some err)
               | Some (Inr labelmap) \<Rightarrow>
                   Some (ob\<lparr>Name := name, Labels := labelmap, Value := Some v\<rparr>, None)))"
proof -
  define idt where "idt = name @ CHR ''{'' # labels @ [CHR ''}'']"
  define p where "p = idt @ CHR '' '' # val"
  have p0: "name @ CHR ''{'' # labels @ ''} '' @ val = p"
    by (simp add: p_def idt_def)
  have idt_ne: "idt \<noteq> []"
    by (simp add: idt_def)
  have hd_idt: "isGraphic (hd idt)"
    using name(1) by (cases name) (simp_all add: idt_def graphic_brace)
  have last_idt: "isGraphic (last idt)"
    by (simp add: idt_def graphic_brace)
  have last_val: "isGraphic (last val)" and hd_val: "isGraphic (hd val)"
    using val by (auto simp: list_all_iff)
  have nosp: "CHR '' '' \<notin> set val"
    using val(2) isGraphic_not_space by (auto simp: list_all_iff)
  have trim_p: "TrimSpace p = p"
    using hd_idt last_val val(1) idt_ne
    by (intro TrimSpace_graphic_ends) (simp_all add: p_def)
  have x: "LastIndexByte p (CHR '' '') = int (length idt)"
    unfolding p_def using nosp by (rule LastIndexByte_last)
  have x1: "\<not> int (length idt) < 1"
    using idt_ne by (cases idt) simp_all
  have a: "slice p 0 (int (length idt)) = Some idt"
    unfolding p_def by (rule slice_prefix)
  have b: "slice p (int (length idt) + 1) (len p) = Some val"
    unfolding p_def by (rule slice_suffix)
  have trim_idt: "TrimSpace idt = idt"
    using idt_ne hd_idt last_idt by (rule TrimSpace_graphic_ends)
  have trim_val: "TrimSpace val = val"
    using val(1) hd_val last_val by (rule TrimSpace_graphic_ends)
  have y: "IndexByte idt (CHR ''{'') = int (length name)"
    unfolding idt_def using name(2) by (rule IndexByte_first)
  have c: "at idt (len idt - 1) = Some (CHR ''}'')"
    using at_last [of "name @ CHR ''{'' # labels" "CHR ''}''"] by (simp add: idt_def)
  have n: "slice idt 0 (int (length name)) = Some name"
    unfolding idt_def by (rule slice_prefix)
  have l: "slice idt (int (length name) + 1) (len idt - 1) = Some labels"
    unfolding idt_def by (rule slice_middle)
  show ?thesis
    unfolding p0 prometheusUnmarshal_def
    by (simp add: Let_def trim_p x idt_ne a b trim_idt trim_val y c n l
        split: sum.splits option.splits)
qed

subsection \<open>The loop over the label items\<close>

lemma IndexByte_bounds:
  "c \<in> set s \<Longrightarrow> 0 \<le> IndexByte s c \<and> IndexByte s c < int (length s)"
  by (induction s) (auto simp: Let_def)

lemma at_first: "v \<noteq> [] \<Longrightarrow> at v 0 = Some (hd v)"
  by (cases v) (simp_all add: at_def len_def)

lemma at_end: "v \<noteq> [] \<Longrightarrow> at v (len v - 1) = Some (last v)"
  by (simp add: at_def len_def last_conv_nth nat_diff_distrib')

lemma valuePart_Some:
  assumes "valuePart pair = Some v"
  shows "0 \<le> IndexByte pair (CHR ''='')"
    and "slice pair 0 (IndexByte pair (CHR ''='')) =
           Some (take (nat (IndexByte pair (CHR ''=''))) pair)"
    and "slice pair (IndexByte pair (CHR ''='') + 1) (len pair) = Some v"
proof -
  let ?z = "IndexByte pair (CHR ''='')"
  from assms have z: "\<not> ?z < 0" and v: "v = drop (nat ?z + 1) pair"
    by (auto simp: valuePart_def Let_def split: if_splits)
  then have "CHR ''='' \<in> set pair"
    by (simp add: IndexByte_neg_iff)
  then have b: "0 \<le> ?z \<and> ?z < int (length pair)"
    by (rule IndexByte_bounds)
  then show "0 \<le> ?z"
    by simp
  from b show "slice pair 0 ?z = Some (take (nat ?z) pair)"
    by (simp add: slice_def len_def)
  from b show "slice pair (?z + 1) (len pair) = Some v"
    by (simp add: slice_def len_def v nat_add_distrib)
qed

lemma labelLoop_skipped:
  "skipped pair \<Longrightarrow> labelLoop (pair # pairs) m = labelLoop pairs m"
  by (simp add: skipped_def valuePart_def Let_def split: if_splits)

lemma labelLoop_quoted:
  assumes "quoted pair"
  shows "\<exists>k v. labelLoop (pair # pairs) m = labelLoop pairs (m(k \<mapsto> v))"
proof -
  from assms obtain v where v: "valuePart pair = Some v"
    and l: "2 \<le> length v" and q: "hd v = CHR 0x22" "last v = CHR 0x22"
    by (auto simp: quoted_def split: option.splits)
  from l have ne: "v \<noteq> []"
    by auto
  from l have s: "slice v 1 (len v - 1) = Some (take (length v - 2) (drop 1 v))"
    by (simp add: slice_def len_def nat_diff_distrib')
  show ?thesis
    using valuePart_Some [OF v] at_first [OF ne] at_end [OF ne] q s
    by (auto simp: Let_def)
qed

lemma labelLoop_unquoted:
  assumes "unquoted pair"
  shows "labelLoop (pair # pairs) m =
    Some (Inl (ErrorString ''bad format: label value must be wrapped in quotes''))"
proof -
  from assms obtain v where v: "valuePart pair = Some v"
    and ne: "v \<noteq> []" and q: "hd v \<noteq> CHR 0x22 \<or> last v \<noteq> CHR 0x22"
    by (auto simp: unquoted_def split: option.splits)
  show ?thesis
    using valuePart_Some [OF v] at_first [OF ne] at_end [OF ne] q
    by (auto simp: Let_def)
qed




text \<open>
  A panic of \<open>prometheusUnmarshal\<close> comes from the loop over the items and from nowhere
  else: every other index and slice of the function is in range on every input. The loop
  panics only on an item whose value part is empty (\<^verbatim>\<open>v[0]\<close>) or is a lone double quote
  (\<^verbatim>\<open>v[1:len(v)-1]\<close>).
\<close>

lemma IndexByte_nth: "c \<in> set s \<Longrightarrow> s ! nat (IndexByte s c) = c"
proof (induction s)
  case Nil
  then show ?case by simp
next
  case (Cons x xs)
  show ?case
  proof (cases "x = c")
    case True
    then show ?thesis by simp
  next
    case False
    with Cons.prems have in_xs: "c \<in> set xs" by simp
    then have "0 \<le> IndexByte xs c" by (simp add: IndexByte_bounds)
    with False Cons.IH [OF in_xs] show ?thesis
      by (simp add: Let_def nat_add_distrib)
  qed
qed

lemma LastIndexByte_less: "LastIndexByte s c < len s"
  using IndexByte_ge [of "rev s" c]
  by (simp add: LastIndexByte_def Let_def len_def)

lemma labelLoop_None:
  "labelLoop pairs m = None \<Longrightarrow>
     \<exists>pair \<in> set pairs. valuePart pair = Some [] \<or> valuePart pair = Some [CHR 0x22]"
proof (induction pairs arbitrary: m)
  case Nil
  then show ?case by simp
next
  case (Cons pair pairs)
  show ?case
  proof (cases "valuePart pair")
    case None
    then have "skipped pair" by (simp add: skipped_def)
    with Cons.prems have "labelLoop pairs m = None"
      by (simp add: labelLoop_skipped del: labelLoop.simps(2))
    from Cons.IH [OF this] show ?thesis by auto
  next
    case (Some v)
    consider "v = []" | "v = [CHR 0x22]" | "unquoted pair" | "quoted pair"
    proof -
      have "v = [] \<or> v = [CHR 0x22] \<or> unquoted pair \<or> quoted pair"
      proof (cases v)
        case Nil
        then show ?thesis by simp
      next
        case (Cons a w)
        show ?thesis
        proof (cases w)
          case Nil
          with Cons Some show ?thesis
            by (auto simp: unquoted_def)
        next
          case (Cons b u)
          with \<open>v = a # w\<close> Some show ?thesis
            by (auto simp: unquoted_def quoted_def)
        qed
      qed
      then show ?thesis using that by blast
    qed
    then show ?thesis
    proof cases
      case 1
      with Some show ?thesis by simp
    next
      case 2
      with Some show ?thesis by simp
    next
      case 3
      from labelLoop_unquoted [OF this, of pairs m] Cons.prems show ?thesis
        by simp
    next
      case 4
      from labelLoop_quoted [OF this, of pairs m] obtain k w where
        "labelLoop (pair # pairs) m = labelLoop pairs (m(k \<mapsto> w))"
        by blast
      with Cons.prems have "labelLoop pairs (m(k \<mapsto> w)) = None"
        by simp
      from Cons.IH [OF this] show ?thesis by auto
    qed
  qed
qed

lemma prometheusUnmarshal_None:
  assumes "prometheusUnmarshal L p0 ob = None"
  shows "\<exists>pair \<in> set (Split (labelSection p0) (CHR '','')).
           valuePart pair = Some [] \<or> valuePart pair = Some [CHR 0x22]"
proof -
  define p where "p = TrimSpace p0"
  define x where "x = LastIndexByte p (CHR '' '')"
  define ident where "ident = TrimSpace (take (nat x) p)"
  define y where "y = IndexByte ident (CHR ''{'')"
  define labels where "labels = take (length ident - nat y - 2) (drop (nat y + 1) ident)"
  have ls: "labelSection p0 = labels"
    by (simp add: labelSection_def Let_def labels_def y_def ident_def x_def p_def)
  have xl: "x < len p"
    unfolding x_def by (rule LastIndexByte_less)
  have a: "slice p 0 x = Some (take (nat x) p)" if "\<not> x < 1"
    using that xl by (simp add: slice_def len_def)
  have b: "\<exists>b. slice p (x + 1) (len p) = Some b" if "\<not> x < 1"
    using that xl by (simp add: slice_def len_def)
  have c: "at ident (len ident - 1) = Some (last ident)"
    and n: "\<exists>name. slice ident 0 y = Some name"
    and l: "last ident = CHR ''}'' \<longrightarrow> slice ident (y + 1) (len ident - 1) = Some labels"
    if "\<not> y < 0"
  proof -
    from that have mem: "CHR ''{'' \<in> set ident"
      by (simp add: y_def IndexByte_neg_iff)
    then have ne: "ident \<noteq> []"
      by auto
    from mem have yb: "0 \<le> y \<and> y < int (length ident)"
      unfolding y_def by (rule IndexByte_bounds)
    from ne show "at ident (len ident - 1) = Some (last ident)"
      by (rule at_end)
    from yb show "\<exists>name. slice ident 0 y = Some name"
      by (simp add: slice_def len_def)
    show "last ident = CHR ''}'' \<longrightarrow> slice ident (y + 1) (len ident - 1) = Some labels"
    proof
      assume "last ident = CHR ''}''"
      then have "ident ! (length ident - 1) = CHR ''}''"
        using ne by (simp add: last_conv_nth)
      moreover have "ident ! nat y = CHR ''{''"
        unfolding y_def using mem by (rule IndexByte_nth)
      ultimately have "nat y \<noteq> length ident - 1"
        by auto
      with yb have "y + 1 \<le> int (length ident) - 1"
        by auto
      with yb show "slice ident (y + 1) (len ident - 1) = Some labels"
        by (simp add: slice_def len_def labels_def nat_add_distrib nat_diff_distrib')
    qed
  qed
  have "labelLoop (Split labels (CHR '','')) Map.empty = None"
  proof (rule ccontr)
    assume "labelLoop (Split labels (CHR '','')) Map.empty \<noteq> None"
    then obtain r where r: "labelLoop (Split labels (CHR '','')) Map.empty = Some r"
      by auto
    have "prometheusUnmarshal L p0 ob \<noteq> None"
    proof (cases "x < 1")
      case True
      then show ?thesis
        by (simp add: prometheusUnmarshal_def Let_def p_def [symmetric] x_def [symmetric])
    next
      case False
      from b [OF False] obtain bb where bb: "slice p (x + 1) (len p) = Some bb"
        by blast
      show ?thesis
      proof (cases "strconv_ParseFloat L (TrimSpace bb)")
        case (Inl e)
        with False a bb show ?thesis
          by (simp add: prometheusUnmarshal_def Let_def p_def [symmetric] x_def [symmetric])
      next
        case (Inr v)
        show ?thesis
        proof (cases "y < 0")
          case True
          with False a bb Inr show ?thesis
            by (simp add: prometheusUnmarshal_def Let_def p_def [symmetric] x_def [symmetric]
                ident_def [symmetric] y_def [symmetric])
        next
          case y0: False
          from n [OF y0] obtain name where name: "slice ident 0 y = Some name"
            by blast
          show ?thesis
          proof (cases "last ident = CHR ''}''")
            case True
            with l [OF y0] have "slice ident (y + 1) (len ident - 1) = Some labels"
              by simp
            with False a bb Inr y0 c [OF y0] name True r show ?thesis
              by (simp add: prometheusUnmarshal_def Let_def p_def [symmetric] x_def [symmetric]
                  ident_def [symmetric] y_def [symmetric] split: sum.splits)
          next
            case nb: False
            with False a bb Inr y0 c [OF y0] show ?thesis
              by (simp add: prometheusUnmarshal_def Let_def p_def [symmetric] x_def [symmetric]
                  ident_def [symmetric] y_def [symmetric])
          qed
        qed
      qed
    qed
    with assms show False
      by simp
  qed
  from labelLoop_None [OF this] ls show ?thesis
    by simp
qed

subsection \<open>What a successful run of the text grammar assigns\<close>

lemma slice_to_end: "slice s lo (len s) = Some b \<Longrightarrow> b = drop (nat lo) s"
  by (auto simp: slice_def len_def split: if_splits)

lemma prometheusUnmarshal_success:
  assumes "prometheusUnmarshal L p ob = Some (ob', None)"
  shows "\<exists>name labelmap v.
           ob' = ob\<lparr>Name := name, Labels := labelmap, Value := Some v\<rparr>
           \<and> strconv_ParseFloat L
                (TrimSpace (drop (nat (LastIndexByte (TrimSpace p) (CHR '' '') + 1))
                   (TrimSpace p))) = Inr v"
  using assms
  by (auto simp: prometheusUnmarshal_def Let_def dest!: slice_to_end
      split: if_splits sum.splits bind_splits)

subsection \<open>The gzip magic\<close>

lemma of_char_31: "(of_char c = (31::nat)) \<longleftrightarrow> c = CHR 0x1F"
proof
  assume h: "of_char c = (31::nat)"
  have "char_of (31::nat) = CHR 0x1F"
    by code_simp
  moreover have "c = char_of (of_char c :: nat)"
    by simp
  ultimately show "c = CHR 0x1F"
    using h by simp
next
  assume "c = CHR 0x1F"
  then show "of_char c = (31::nat)"
    by simp
qed

lemma of_char_139: "(of_char c = (139::nat)) \<longleftrightarrow> c = CHR 0x8B"
proof
  assume h: "of_char c = (139::nat)"
  have "char_of (139::nat) = CHR 0x8B"
    by code_simp
  moreover have "c = char_of (of_char c :: nat)"
    by simp
  ultimately show "c = CHR 0x8B"
    using h by simp
next
  assume "c = CHR 0x8B"
  then show "of_char c = (139::nat)"
    by simp
qed

lemma isGzipped_magic:
  "isGzipped data \<longleftrightarrow> length data \<ge> 2 \<and> data ! 0 = CHR 0x1F \<and> data ! 1 = CHR 0x8B"
  by (simp add: isGzipped_def of_char_31 of_char_139)

subsection \<open>Runs of the sample instances\<close>

lemma parseLine_text:
  "p \<noteq> [] \<Longrightarrow> hd p \<noteq> CHR ''{'' \<Longrightarrow> parseLine L p = prometheusUnmarshal L p zero_observation"
  by (cases p) (simp_all add: parseLine_def at_def len_def)

lemma sample_ParseFloat_digit:
  "sample_ParseFloat ''1'' = Inr 1" "sample_ParseFloat ''4'' = Inr 4"
  by (simp_all add: sample_ParseFloat_def isDigit_def)

lemma sample_foo:
  \<open>prometheusUnmarshal sample_lib ''foo{} 1'' ob
     = Some (ob\<lparr>Name := ''foo'', Labels := Map.empty, Value := Some 1\<rparr>, None)\<close>
  using prometheusUnmarshal_shape [of "''foo''" "''1''" sample_lib "[]" ob]
  by (simp add: isGraphic_def sample_lib_def sample_ParseFloat_digit)

lemma sample_junk:
  \<open>prometheusUnmarshal sample_lib ''junk'' ob
     = Some (ob, Some (ErrorString ''bad format: couldn't find space''))\<close>
proof -
  have t: "TrimSpace ''junk'' = ''junk''"
    by (rule TrimSpace_graphic_ends) (simp_all add: isGraphic_def)
  have "LastIndexByte ''junk'' (CHR '' '') < 0"
    by (simp add: LastIndexByte_neg_iff)
  then show ?thesis
    by (simp add: prometheusUnmarshal_def t)
qed

lemma handleLine_foo:
  \<open>handleLine sample_lib sample_observe ''foo{} 1'' st = Some ((''foo'', None), st @ [''foo''])\<close>
  by (simp add: handleLine_def parseLine_text sample_foo sample_observe_def)

lemma handleLine_junk:
  \<open>handleLine sample_lib observe ''junk'' st
     = Some (([], Some (Wrap (ErrorString ''bad format: couldn't find space'') ''parse error'')), st)\<close>
  by (simp add: handleLine_def parseLine_text sample_junk)

lemma decompress_raw:
  \<open>transparentDecompressGZip L ''foo{} 1'' = (''foo{} 1'', None)\<close>
  \<open>transparentDecompressGZip L ''junk'' = (''junk'', None)\<close>
  by (simp_all add: transparentDecompressGZip_def isGzipped_magic)

lemma decompress_corrupt:
  "transparentDecompressGZip sample_lib corruptGzip
     = ([], Some (ErrorString ''gzip: invalid header''))"
  by (simp add: transparentDecompressGZip_def isGzipped_magic unZipData_def
      sample_lib_def sample_NewReader_def corruptGzip_def)

lemma decompress_frame:
  "transparentDecompressGZip sample_lib (sample_frame payload) = (payload, None)"
  by (simp add: transparentDecompressGZip_def isGzipped_magic unZipData_def
      sample_lib_def sample_NewReader_def sample_ReadAll_def sample_frame_def)

subsection \<open>The packet loop and the stream loop\<close>

text \<open>
  One turn of each loop. In the packet loop a read error and a decompression error both
  end the loop; a decode or observe error is logged and the loop goes on. In the stream
  loop a decompression error is logged and the loop goes on, strict or not; a decode or
  observe error is logged and, under the strict policy, ends the connection.
\<close>

lemma forwardPacketConn_read_error:
  "forwardPacketConn L observe ((data, Some err) # rds) st logger = (Returns err, st, logger)"
  by (simp add: readFromPacketConn_def)

lemma forwardPacketConn_decompress_error:
  "transparentDecompressGZip L data = (packet, Some err) \<Longrightarrow>
     forwardPacketConn L observe ((data, None) # rds) st logger = (Returns err, st, logger)"
  by (simp add: readFromPacketConn_def)

lemma forwardPacketConn_rejected:
  "transparentDecompressGZip L data = (packet, None) \<Longrightarrow>
   handleLine L observe packet st = Some ((name, Some err), st') \<Longrightarrow>
     forwardPacketConn L observe ((data, None) # rds) st logger
       = forwardPacketConn L observe rds st' (logger @ [Rejected err])"
  by (simp add: readFromPacketConn_def)

lemma handleConn_decompress_error:
  "transparentDecompressGZip L line = (data, Some err) \<Longrightarrow>
     handleConn L observe strict (line # lines) st logger
       = handleConn L observe strict lines st (logger @ [Rejected err])"
  by simp

lemma handleConn_strict_rejected:
  "transparentDecompressGZip L line = (data, None) \<Longrightarrow>
   handleLine L observe data st = Some ((name, Some err), st') \<Longrightarrow>
     handleConn L observe True (line # lines) st logger = Some (st', logger @ [Rejected err])"
  by simp

lemma handleConn_lenient_rejected:
  "transparentDecompressGZip L line = (data, None) \<Longrightarrow>
   handleLine L observe data st = Some ((name, Some err), st') \<Longrightarrow>
     handleConn L observe False (line # lines) st logger
       = handleConn L observe False lines st' (logger @ [Rejected err])"
  by simp

text \<open>
  Claim C1 says that the packet loop logs every failure of a datagram (decompression,
  decode or observe) and goes on to the next datagram, and that only a read error of the
  transport ends it. The code departs from it for decompression: \<open>readFromPacketConn\<close>
  returns the error of \<open>transparentDecompressGZip\<close> as it returns a read error, and the
  loop returns it. On the datagram \<open>corruptGzip\<close> followed by \<^verbatim>\<open>foo{} 1\<close> the loop
  returns the gzip error, logs nothing and never handles the second datagram; after a
  datagram that fails to decode (\<^verbatim>\<open>junk\<close>) it logs the rejection and does handle the
  second.
\<close>

theorem forwardPacketConn_corrupt_gzip_ends_loop:
  \<open>forwardPacketConn sample_lib sample_observe
       [(corruptGzip, None), (''foo{} 1'', None)] [] []
     = (Returns (ErrorString ''gzip: invalid header''), [], [])
   \<and> forwardPacketConn sample_lib sample_observe
       [(''junk'', None), (''foo{} 1'', None)] [] []
     = (Blocks, [''foo''],
        [Rejected (Wrap (ErrorString ''bad format: couldn't find space'') ''parse error''),
         Accepted ''foo''])\<close>
  by (simp add: readFromPacketConn_def decompress_corrupt decompress_raw
      handleLine_foo handleLine_junk)

text \<open>
  Claim C2 says that under the strict policy the first rejected line ends the processing
  of the connection, whether decompression, decode or observe rejected it. The code
  departs from it for decompression: that branch logs the rejection and continues without
  looking at \<open>strict\<close>. On the lines \<open>corruptGzip\<close> and \<^verbatim>\<open>foo{} 1\<close> with \<open>strict\<close> set, the
  second line is still decoded and observed; after a line that fails to decode
  (\<^verbatim>\<open>junk\<close>) the connection is left at once.
\<close>

theorem handleConn_strict_continues_after_corrupt_gzip:
  \<open>handleConn sample_lib sample_observe True [corruptGzip, ''foo{} 1''] [] []
     = Some ([''foo''],
         [Rejected (ErrorString ''gzip: invalid header''), Accepted ''foo''])
   \<and> handleConn sample_lib sample_observe True [''junk'', ''foo{} 1''] [] []
     = Some ([],
         [Rejected (Wrap (ErrorString ''bad format: couldn't find space'') ''parse error'')])\<close>
  by (simp add: decompress_corrupt decompress_raw handleLine_foo handleLine_junk)

subsection \<open>The dispatch of parseLine\<close>

text \<open>
  Claim C3 as stated fails: on a space followed by a JSON object, dispatching on the first
  byte that is not white space selects the JSON decoder (\<open>spec_parseLine\<close>), while
  \<open>parseLine\<close> hands the record to the text grammar, which rejects it.
\<close>

theorem parseLine_leading_space_counterexample:
  \<open>spec_parseLine sample_lib '' {"name":"m"}''
     = Some (zero_observation\<lparr>Name := ''m''\<rparr>, None)
   \<and> parseLine sample_lib '' {"name":"m"}''
     = Some (zero_observation, Some (ErrorString ''bad format: couldn't find space''))\<close>
proof -
  have t: \<open>TrimSpace '' {"name":"m"}'' = ''{"name":"m"}''\<close>
    by code_simp
  have s: \<open>stripRunes spaceRunes '' {"name":"m"}'' = ''{"name":"m"}''\<close>
    by code_simp
  have j: \<open>sample_json '' {"name":"m"}'' ob = (ob\<lparr>Name := ''m''\<rparr>, None)\<close> for ob :: "int observation"
    by (simp add: sample_json_def t)
  have x: \<open>LastIndexByte ''{"name":"m"}'' (CHR '' '') < 0\<close>
    by (simp add: LastIndexByte_neg_iff)
  have spec: \<open>spec_parseLine sample_lib '' {"name":"m"}''
     = Some (zero_observation\<lparr>Name := ''m''\<rparr>, None)\<close>
    by (simp add: spec_parseLine_def s sample_lib_def j)
  have code: \<open>parseLine sample_lib '' {"name":"m"}''
     = Some (zero_observation, Some (ErrorString ''bad format: couldn't find space''))\<close>
    using x by (simp add: parseLine_text prometheusUnmarshal_def t)
  from spec code show ?thesis
    by simp
qed

text \<open>
  Claim C3, amended. \<open>parseLine\<close> dispatches on the first byte of the record: the empty
  record is an invalid line, a record whose first byte is an opening brace goes to the
  JSON decoder, and every other record goes to the text grammar. In particular a record
  that starts with a space is decoded by the text grammar whatever follows the space, and
  whatever the JSON decoder \<open>J\<close> would make of it.
\<close>

theorem parseLine_dispatch_first_byte:
  "parseLine L p =
     (case p of
        [] \<Rightarrow> Some (zero_observation, Some (ErrorString ''invalid (empty) line''))
      | c # rest \<Rightarrow>
          if c = CHR ''{'' then Some (json_Unmarshal L p zero_observation)
          else prometheusUnmarshal L p zero_observation)
   \<and> parseLine (L\<lparr>json_Unmarshal := J\<rparr>) (CHR '' '' # rest')
       = prometheusUnmarshal L (CHR '' '' # rest') zero_observation"
proof -
  have a: "parseLine L p =
     (case p of
        [] \<Rightarrow> Some (zero_observation, Some (ErrorString ''invalid (empty) line''))
      | c # rest \<Rightarrow>
          if c = CHR ''{'' then Some (json_Unmarshal L p zero_observation)
          else prometheusUnmarshal L p zero_observation)"
    by (cases p) (simp_all add: parseLine_def at_def len_def)
  have "prometheusUnmarshal (L\<lparr>json_Unmarshal := J\<rparr>) q ob = prometheusUnmarshal L q ob"
    for q and ob :: "'a observation"
    by (simp add: prometheusUnmarshal_def Let_def cong: if_cong sum.case_cong Option.bind_cong)
  then have b: "parseLine (L\<lparr>json_Unmarshal := J\<rparr>) (CHR '' '' # rest')
       = prometheusUnmarshal L (CHR '' '' # rest') zero_observation"
    by (simp add: parseLine_def at_def len_def)
  from a b show ?thesis
    by simp
qed

subsection \<open>The text grammar\<close>

text \<open>
  Claim C4 says that the text-grammar parser returns an observation or an error on every
  input, with no index out of range, in particular on \<^verbatim>\<open>name{k=} 1\<close>. The code departs
  from it: on that line the value part of the pair is empty and \<^verbatim>\<open>v[0]\<close> is out of
  range; on \<^verbatim>\<open>name{k="} 1\<close> the value part is a lone double quote and the slice
  \<^verbatim>\<open>v[1:len(v)-1]\<close> is out of range. Both runs panic (\<open>None\<close>).
\<close>

theorem prometheusUnmarshal_panics_on_empty_value:
  \<open>prometheusUnmarshal sample_lib ''name{k=} 1'' (zero_observation :: int observation) = None
   \<and> prometheusUnmarshal sample_lib ''name{k="} 1'' (zero_observation :: int observation) = None\<close>
proof -
  have a: \<open>labelLoop (Split ''k='' (CHR '','')) Map.empty = None\<close>
    by (simp add: slice_def at_def len_def)
  have b: \<open>labelLoop (Split ''k="'' (CHR '','')) Map.empty = None\<close>
    by (simp add: slice_def at_def len_def)
  show ?thesis
    using prometheusUnmarshal_shape [of "''name''" "''1''" sample_lib "''k=''" zero_observation]
      prometheusUnmarshal_shape [of "''name''" "''1''" sample_lib \<open>''k="''\<close> zero_observation]
      a b
    by (simp add: isGraphic_def sample_lib_def sample_ParseFloat_digit)
qed




text \<open>
  Claim C9. An observation that the text grammar produces is a value record: its
  \<open>Value\<close> is present and is the float parsed from the text after the last space of the
  trimmed line, and it has no kind, no help text and no bucket boundaries.
\<close>

theorem text_grammar_value_record:
  assumes "p \<noteq> []" and "hd p \<noteq> CHR ''{''" and "parseLine L p = Some (obs, None)"
  shows "prometheusUnmarshal L p zero_observation = Some (obs, None)
    \<and> (\<exists>v. strconv_ParseFloat L
              (TrimSpace (drop (nat (LastIndexByte (TrimSpace p) (CHR '' '') + 1))
                 (TrimSpace p))) = Inr v
          \<and> Value obs = Some v)
    \<and> Kind obs = None \<and> Help obs = None \<and> Buckets obs = None"
proof -
  from assms have u: "prometheusUnmarshal L p zero_observation = Some (obs, None)"
    by (simp add: parseLine_text)
  from prometheusUnmarshal_success [OF u] obtain name labelmap v where
    obs: "obs = zero_observation\<lparr>Name := name, Labels := labelmap, Value := Some v\<rparr>"
    and v: "strconv_ParseFloat L
                (TrimSpace (drop (nat (LastIndexByte (TrimSpace p) (CHR '' '') + 1))
                   (TrimSpace p))) = Inr v"
    by blast
  from obs have "Value obs = Some v" "Kind obs = None" "Help obs = None" "Buckets obs = None"
    by (simp_all add: zero_observation_def)
  with u v show ?thesis
    by blast
qed

text \<open>
  The line \<^verbatim>\<open>foo_total{code="200"} 4\<close> of the repository's tests.
\<close>

theorem text_grammar_value_record_witness:
  \<open>''foo_total{code="200"} 4'' \<noteq> [] \<and> hd ''foo_total{code="200"} 4'' \<noteq> CHR ''{''
   \<and> parseLine sample_lib ''foo_total{code="200"} 4''
       = Some (zero_observation\<lparr>Name := ''foo_total'', Labels := [''code'' \<mapsto> ''200''],
                 Value := Some 4\<rparr>, None)
   \<and> Value (zero_observation\<lparr>Name := ''foo_total'', Labels := [''code'' \<mapsto> ''200''],
                 Value := Some (4::int)\<rparr>) = Some 4
   \<and> Kind (zero_observation\<lparr>Name := ''foo_total'', Labels := [''code'' \<mapsto> ''200''],
                 Value := Some (4::int)\<rparr>) = None
   \<and> Help (zero_observation\<lparr>Name := ''foo_total'', Labels := [''code'' \<mapsto> ''200''],
                 Value := Some (4::int)\<rparr>) = None
   \<and> Buckets (zero_observation\<lparr>Name := ''foo_total'', Labels := [''code'' \<mapsto> ''200''],
                 Value := Some (4::int)\<rparr>) = None\<close>
proof -
  have l: \<open>labelLoop (Split ''code="200"'' (CHR '','')) Map.empty
      = Some (Inr [''code'' \<mapsto> ''200''])\<close>
    by (simp add: slice_def at_def len_def)
  have ne: \<open>''foo_total{code="200"} 4'' \<noteq> []\<close> and hd: \<open>hd ''foo_total{code="200"} 4'' \<noteq> CHR ''{''\<close>
    by simp_all
  have p: \<open>parseLine sample_lib ''foo_total{code="200"} 4''
       = Some (zero_observation\<lparr>Name := ''foo_total'', Labels := [''code'' \<mapsto> ''200''],
                 Value := Some 4\<rparr>, None)\<close>
    using prometheusUnmarshal_shape [of "''foo_total''" "''4''" sample_lib \<open>''code="200"''\<close>
        zero_observation] l
    by (simp add: parseLine_text isGraphic_def sample_lib_def sample_ParseFloat_digit)
  from text_grammar_value_record [OF ne hd p] ne hd p show ?thesis
    by simp
qed

subsection \<open>Handling a line\<close>

text \<open>
  Claim C6. Validation precedes mutation. With the observer instrumented to record its
  calls: when \<open>parseLine\<close> returns an error, \<open>handleLine\<close> returns that error wrapped and
  leaves the list of calls and the observer's state as they were; when \<open>parseLine\<close>
  succeeds, \<open>observe\<close> is called once, with the parsed observation, and the state is the
  one this call returns.
\<close>

theorem handleLine_observes_after_parse:
  "(parseLine L line = Some (obs, Some err)
      \<longrightarrow> handleLine L (recording observe) line (calls, st)
            = Some (([], Some (Wrap err ''parse error'')), (calls, st)))
   \<and> (parseLine L line = Some (obs, None)
      \<longrightarrow> handleLine L (recording observe) line (calls, st)
            = Some ((Name obs,
                     map_option (\<lambda>e. Wrap e ''observation error'') (snd (observe st obs))),
                    (calls @ [obs], fst (observe st obs))))"
  by (auto simp: handleLine_def recording_def split: prod.splits option.splits)

text \<open>
  A line that fails to parse (\<^verbatim>\<open>junk\<close>) and one that parses (\<^verbatim>\<open>foo{} 1\<close>).
\<close>

theorem handleLine_observes_after_parse_witness:
  \<open>parseLine sample_lib ''junk''
     = Some (zero_observation, Some (ErrorString ''bad format: couldn't find space''))
   \<and> handleLine sample_lib (recording sample_observe) ''junk'' ([], [])
     = Some (([], Some (Wrap (ErrorString ''bad format: couldn't find space'') ''parse error'')),
             ([], []))
   \<and> parseLine sample_lib ''foo{} 1''
     = Some (zero_observation\<lparr>Name := ''foo'', Labels := Map.empty, Value := Some 1\<rparr>, None)
   \<and> handleLine sample_lib (recording sample_observe) ''foo{} 1'' ([], [])
     = Some ((''foo'', None),
             ([zero_observation\<lparr>Name := ''foo'', Labels := Map.empty, Value := Some 1\<rparr>],
              [''foo'']))\<close>
proof -
  have j: \<open>parseLine sample_lib ''junk''
     = Some (zero_observation, Some (ErrorString ''bad format: couldn't find space''))\<close>
    by (simp add: parseLine_text sample_junk)
  have p: \<open>parseLine sample_lib ''foo{} 1''
       = Some (zero_observation\<lparr>Name := ''foo'', Labels := Map.empty, Value := Some 1\<rparr>, None)\<close>
    by (simp add: parseLine_text sample_foo)
  from j p
    handleLine_observes_after_parse [where L = sample_lib and line = "''junk''"
      and obs = zero_observation and observe = sample_observe and calls = "[]" and st = "[]"
      and err = \<open>ErrorString ''bad format: couldn't find space''\<close>]
    handleLine_observes_after_parse [where L = sample_lib and line = \<open>''foo{} 1''\<close>
      and obs = \<open>zero_observation\<lparr>Name := ''foo'', Labels := Map.empty, Value := Some 1\<rparr>\<close>
      and observe = sample_observe and calls = "[]" and st = "[]"]
  show ?thesis
    by (simp add: sample_observe_def)
qed

subsection \<open>Transparent decompression\<close>

text \<open>
  Claim C7. When the gzip magic does not match (fewer than two bytes, or the first two
  are not 0x1F 0x8B), \<open>transparentDecompressGZip\<close> returns its input and no error. When
  it matches, the result is what reading the gzip reader to its end gives; an error of
  \<^verbatim>\<open>gzip.NewReader\<close> or of \<^verbatim>\<open>io.ReadAll\<close> (a corrupt or truncated stream) is returned to
  the caller, with no data.
\<close>

theorem transparentDecompressGZip_cases:
  "((length data < 2 \<or> data ! 0 \<noteq> CHR 0x1F \<or> data ! 1 \<noteq> CHR 0x8B)
      \<longrightarrow> transparentDecompressGZip L data = (data, None))
   \<and> (length data \<ge> 2 \<and> data ! 0 = CHR 0x1F \<and> data ! 1 = CHR 0x8B
        \<and> gzip_NewReader L data = Inl e
      \<longrightarrow> transparentDecompressGZip L data = ([], Some e))
   \<and> (length data \<ge> 2 \<and> data ! 0 = CHR 0x1F \<and> data ! 1 = CHR 0x8B
        \<and> gzip_NewReader L data = Inr gzreader \<and> io_ReadAll L gzreader = (partial, Some e)
      \<longrightarrow> transparentDecompressGZip L data = ([], Some e))
   \<and> (length data \<ge> 2 \<and> data ! 0 = CHR 0x1F \<and> data ! 1 = CHR 0x8B
        \<and> gzip_NewReader L data = Inr gzreader \<and> io_ReadAll L gzreader = (out, None)
      \<longrightarrow> transparentDecompressGZip L data = (out, None))"
  by (auto simp: transparentDecompressGZip_def unZipData_def isGzipped_magic)

text \<open>
  A raw record, the corrupt stream of the repository's test, and a framed record.
\<close>

theorem transparentDecompressGZip_cases_witness:
  \<open>transparentDecompressGZip sample_lib ''foo{} 1'' = (''foo{} 1'', None)
   \<and> gzip_NewReader sample_lib corruptGzip = Inl (ErrorString ''gzip: invalid header'')
   \<and> transparentDecompressGZip sample_lib corruptGzip
       = ([], Some (ErrorString ''gzip: invalid header''))
   \<and> gzip_NewReader sample_lib (sample_frame ''foo{} 1'') = Inr ''foo{} 1''
   \<and> io_ReadAll sample_lib ''foo{} 1'' = (''foo{} 1'', None)
   \<and> transparentDecompressGZip sample_lib (sample_frame ''foo{} 1'') = (''foo{} 1'', None)\<close>
proof -
  have raw: \<open>''foo{} 1'' ! 0 \<noteq> CHR 0x1F\<close>
    by simp
  have magic1: "length corruptGzip \<ge> 2 \<and> corruptGzip ! 0 = CHR 0x1F \<and> corruptGzip ! 1 = CHR 0x8B"
    by (simp add: corruptGzip_def)
  have bad: "gzip_NewReader sample_lib corruptGzip = Inl (ErrorString ''gzip: invalid header'')"
    by (simp add: sample_lib_def sample_NewReader_def corruptGzip_def)
  have magic2: \<open>length (sample_frame ''foo{} 1'') \<ge> 2
      \<and> sample_frame ''foo{} 1'' ! 0 = CHR 0x1F \<and> sample_frame ''foo{} 1'' ! 1 = CHR 0x8B\<close>
    by (simp add: sample_frame_def)
  have good: \<open>gzip_NewReader sample_lib (sample_frame ''foo{} 1'') = Inr ''foo{} 1''\<close>
    by (simp add: sample_lib_def sample_NewReader_def sample_frame_def)
  have all: \<open>io_ReadAll sample_lib ''foo{} 1'' = (''foo{} 1'', None)\<close>
    by (simp add: sample_lib_def sample_ReadAll_def)
  show ?thesis
    using raw magic1 bad magic2 good all
      transparentDecompressGZip_cases [where data = \<open>''foo{} 1''\<close> and L = sample_lib]
      transparentDecompressGZip_cases [where data = corruptGzip and L = sample_lib
        and e = "ErrorString ''gzip: invalid header''"]
      transparentDecompressGZip_cases [where data = \<open>sample_frame ''foo{} 1''\<close>
        and L = sample_lib and gzreader = \<open>''foo{} 1''\<close> and out = \<open>''foo{} 1''\<close>]
    by simp
qed

text \<open>
  Claim C8. \<open>isGzipped\<close> is true if and only if the input has at least two bytes and the
  first two are 0x1F and 0x8B; said otherwise, if and only if the input starts with the
  two bytes of the gzip magic.
\<close>

theorem isGzipped_iff:
  "(isGzipped packet \<longleftrightarrow>
      length packet \<ge> 2 \<and> packet ! 0 = CHR 0x1F \<and> packet ! 1 = CHR 0x8B)
   \<and> (isGzipped packet \<longleftrightarrow> (\<exists>rest. packet = CHR 0x1F # CHR 0x8B # rest))"
proof -
  have a: "isGzipped packet \<longleftrightarrow>
      length packet \<ge> 2 \<and> packet ! 0 = CHR 0x1F \<and> packet ! 1 = CHR 0x8B"
    by (simp add: isGzipped_def of_char_31 of_char_139)
  have b: "(length packet \<ge> 2 \<and> packet ! 0 = CHR 0x1F \<and> packet ! 1 = CHR 0x8B)
      \<longleftrightarrow> (\<exists>rest. packet = CHR 0x1F # CHR 0x8B # rest)"
  proof (cases packet)
    case Nil
    then show ?thesis by simp
  next
    case (Cons x xs)
    then show ?thesis by (cases xs) auto
  qed
  from a b show ?thesis by simp
qed

text \<open>
  Claim C10. Two records that both decompress without error to the same bytes decode to
  the same observation (and are handled alike by \<open>handleLine\<close>).
\<close>

theorem same_bytes_same_observation:
  assumes "transparentDecompressGZip L a = (d, None)"
    and "transparentDecompressGZip L b = (d, None)"
  shows "parseLine L (fst (transparentDecompressGZip L a))
           = parseLine L (fst (transparentDecompressGZip L b))
         \<and> handleLine L observe (fst (transparentDecompressGZip L a)) st
           = handleLine L observe (fst (transparentDecompressGZip L b)) st"
  using assms by simp

text \<open>
  A raw record and the same record behind a gzip header.
\<close>

theorem same_bytes_same_observation_witness:
  \<open>sample_frame ''foo{} 1'' \<noteq> ''foo{} 1''
   \<and> transparentDecompressGZip sample_lib (sample_frame ''foo{} 1'') = (''foo{} 1'', None)
   \<and> transparentDecompressGZip sample_lib ''foo{} 1'' = (''foo{} 1'', None)
   \<and> parseLine sample_lib (fst (transparentDecompressGZip sample_lib (sample_frame ''foo{} 1'')))
       = parseLine sample_lib (fst (transparentDecompressGZip sample_lib ''foo{} 1''))
   \<and> parseLine sample_lib (fst (transparentDecompressGZip sample_lib ''foo{} 1''))
       = Some (zero_observation\<lparr>Name := ''foo'', Labels := Map.empty, Value := Some 1\<rparr>, None)\<close>
proof -
  have a: \<open>transparentDecompressGZip sample_lib (sample_frame ''foo{} 1'') = (''foo{} 1'', None)\<close>
    by (rule decompress_frame)
  have b: \<open>transparentDecompressGZip sample_lib ''foo{} 1'' = (''foo{} 1'', None)\<close>
    by (rule decompress_raw)
  have ne: \<open>sample_frame ''foo{} 1'' \<noteq> ''foo{} 1''\<close>
    by (simp add: sample_frame_def)
  have p: \<open>parseLine sample_lib ''foo{} 1''
       = Some (zero_observation\<lparr>Name := ''foo'', Labels := Map.empty, Value := Some 1\<rparr>, None)\<close>
    by (simp add: parseLine_text sample_foo)
  from same_bytes_same_observation [OF a b] a b ne p show ?thesis
    by simp
qed

end
